theory Spec2Isabelle
  imports Main
begin

section \<open>Data model\<close>

text \<open>
  The views of \<^verbatim>\<open>rest_auth/views.py\<close> are thin: each validates its input with a
  serializer, calls a collaborator of the host framework and maps the outcome to an HTTP
  status. The views are embedded as they are written; the collaborators they call (the
  token table, the serializers, the cookie session) are not part of the file and enter
  either as parameters or as small models written from the specification.

  A user identity is opaque to the views, so it is a type parameter \<open>'u\<close>.
  A row of the token table holds the token's value (\<open>key\<close>) and its owner (\<open>user\<close>).
  The creation time of a row plays no part in any view and is left out.
\<close>

type_synonym key = string

datatype 'u token = Token (key: key) (user: 'u)

text \<open>
  The calls a view makes to the cookie session (\<^verbatim>\<open>login(request, user)\<close> and
  \<^verbatim>\<open>logout(request)\<close> of \<^verbatim>\<open>django.contrib.auth\<close>) are recorded in the
  order they are made.
\<close>

datatype 'u session_call = Establish 'u | Terminate

record 'u world =
  tokens :: "'u token list"
  side_channel :: "'u session_call list"

definition empty_world :: "'u world" where
  "empty_world = \<lparr>tokens = [], side_channel = []\<rparr>"

text \<open>Exceptions a collaborator can raise inside a view.\<close>

datatype exn = DoesNotExist | DatabaseError | IntegrityError | OtherException string

text \<open>The errors of the specification's taxonomy that concern authentication.\<close>

datatype auth_error = InvalidCredentials | InvalidToken

text \<open>
  \<^verbatim>\<open>Response(data, status=...)\<close>: the payload is the serialized token
  (\<^verbatim>\<open>{'key': ...}\<close>), the serializer's errors, or a \<^verbatim>\<open>{"success": ...}\<close>
  message.
\<close>

datatype 'e body = TokenData key | ErrorData 'e | SuccessData string

datatype 'e response = Response "'e body" nat

definition HTTP_200_OK :: nat where
  "HTTP_200_OK = 200"

definition HTTP_400_BAD_REQUEST :: nat where
  "HTTP_400_BAD_REQUEST = 400"

text \<open>
  \<^verbatim>\<open>django.conf.settings\<close>: the attribute \<^verbatim>\<open>REST_SESSION_LOGIN\<close> may be
  unset (\<open>None\<close>). \<^verbatim>\<open>getattr(settings, 'REST_SESSION_LOGIN', True)\<close> reads it with
  the default \<open>True\<close>. The view only tests the value in an \<^verbatim>\<open>if\<close>, so a value
  that is set is represented by its truth value.
\<close>

record settings =
  REST_SESSION_LOGIN :: "bool option"

definition getattr :: "'a option \<Rightarrow> 'a \<Rightarrow> 'a" where
  "getattr attribute fallback = (case attribute of None \<Rightarrow> fallback | Some v \<Rightarrow> v)"

section \<open>Collaborators\<close>

text \<open>
  Modelled from the spec: the Token Store's \<^verbatim>\<open>get_or_create(identity) ->
  (SessionToken, was_created)\<close>, which stands for
  \<^verbatim>\<open>Token.objects.get_or_create(user=...)\<close> of the framework (not in the sources).
  "Returns an existing record if present, otherwise creates and returns a new one."
  The value of a new token is an opaque random string: the generator's draw \<open>k\<close> is an
  input of the model, used only when a row is created. The call can raise, and the
  specification has persistence failures propagate: the store may fail underneath the
  call (the input \<open>failure\<close> names the exception), and the table keeps a value "unique
  across all tokens", so creating a row with a value that is in the table raises
  \<^verbatim>\<open>IntegrityError\<close>. A call that raises writes nothing.
\<close>

definition get_or_create ::
  "exn option \<Rightarrow> key \<Rightarrow> 'u \<Rightarrow> 'u token list \<Rightarrow> exn + (('u token \<times> bool) \<times> 'u token list)" where
  "get_or_create failure k u rows =
     (case failure of
        Some e \<Rightarrow> Inl e
      | None \<Rightarrow>
          (case find (\<lambda>t. user t = u) rows of
             Some t \<Rightarrow> Inr ((t, False), rows)
           | None \<Rightarrow>
               if k \<in> key ` set rows then Inl IntegrityError
               else Inr ((Token k u, True), rows @ [Token k u])))"

text \<open>
  Modelled from the spec: the Session Side-Channel's \<^verbatim>\<open>establish(identity)\<close> and
  \<^verbatim>\<open>terminate()\<close>, which stand for \<^verbatim>\<open>login\<close> and \<^verbatim>\<open>logout\<close> of
  \<^verbatim>\<open>django.contrib.auth\<close> (not in the sources). The side channel is opaque to the
  views; only the calls are recorded.
\<close>

definition login :: "'u \<Rightarrow> 'u world \<Rightarrow> 'u world" where
  "login u w = w\<lparr>side_channel := side_channel w @ [Establish u]\<rparr>"

definition logout :: "'u world \<Rightarrow> 'u world" where
  "logout w = w\<lparr>side_channel := side_channel w @ [Terminate]\<rparr>"

text \<open>
  Modelled from the spec: the reverse accessor \<^verbatim>\<open>request.user.auth_token\<close> of the
  token table (not in the sources). It raises \<^verbatim>\<open>DoesNotExist\<close> when the user owns no
  token.
\<close>

definition auth_token :: "'u \<Rightarrow> 'u token list \<Rightarrow> exn + 'u token" where
  "auth_token u rows =
     (case find (\<lambda>t. user t = u) rows of
        None \<Rightarrow> Inl DoesNotExist
      | Some t \<Rightarrow> Inr t)"

text \<open>
  Modelled from the spec: the token's \<^verbatim>\<open>delete()\<close> (not in the sources). The
  specification lets the store fail underneath a deletion; whether it does, and with which
  exception, is an input (\<open>failure\<close>). A failed deletion raises and leaves the table
  as it was; a successful one removes the row.
\<close>

definition delete :: "exn option \<Rightarrow> 'u token \<Rightarrow> 'u token list \<Rightarrow> exn + 'u token list" where
  "delete failure t rows =
     (case failure of
        Some e \<Rightarrow> Inl e
      | None \<Rightarrow> Inr (removeAll t rows))"

text \<open>
  Modelled from the spec: \<^verbatim>\<open>resolve(token_value) -> UserIdentity | AuthError\<close>, the
  token authentication of the framework (not in the sources). The lookup is by exact
  match on the value; \<^verbatim>\<open>InvalidToken\<close> when no row matches or the owner is inactive.
  Whether an identity is active is a flag of the user store that can change between two
  lookups: \<open>active\<close> is the flag as it is when the lookup is made.
\<close>

definition resolve :: "('u \<Rightarrow> bool) \<Rightarrow> key \<Rightarrow> 'u token list \<Rightarrow> auth_error + 'u" where
  "resolve active v rows =
     (case find (\<lambda>t. key t = v) rows of
        None \<Rightarrow> Inl InvalidToken
      | Some t \<Rightarrow> if active (user t) then Inr (user t) else Inl InvalidToken)"

section \<open>The views\<close>

subsection \<open>Login\<close>

text \<open>
  \<^verbatim>\<open>
  def login(self):
      self.user = self.serializer.object['user']
      self.token, created = self.token_model.objects.get_or_create(user=self.user)
      if getattr(settings, 'REST_SESSION_LOGIN', True):
          login(self.request, self.user)
  \<close>
  The attributes the method sets on the view (\<open>self.token\<close>) are returned. The method
  has no handler: an exception of \<^verbatim>\<open>get_or_create\<close> leaves it as it is (\<open>Inl\<close>).
\<close>

definition Login_login ::
  "settings \<Rightarrow> exn option \<Rightarrow> key \<Rightarrow> 'u \<Rightarrow> 'u world \<Rightarrow> exn + ('u token \<times> 'u world)" where
  "Login_login cfg failure k u w =
     (case get_or_create failure k u (tokens w) of
        Inl e \<Rightarrow> Inl e
      | Inr ((token, created), rows) \<Rightarrow>
          Inr (token,
               if getattr (REST_SESSION_LOGIN cfg) True
               then login u (w\<lparr>tokens := rows\<rparr>)
               else w\<lparr>tokens := rows\<rparr>))"

definition get_response :: "'u token \<Rightarrow> 'e response" where
  "get_response token = Response (TokenData (key token)) HTTP_200_OK"

definition get_error_response :: "'e \<Rightarrow> 'e response" where
  "get_error_response errors = Response (ErrorData errors) HTTP_400_BAD_REQUEST"

text \<open>
  \<^verbatim>\<open>
  def post(self, request, *args, **kwargs):
      self.serializer = self.get_serializer()
      if not self.serializer.is_valid():
          return self.get_error_response()
      self.login()
      return self.get_response()
  \<close>
  The serializer class is a parameter: applied to \<^verbatim>\<open>request.DATA\<close> it yields either
  its \<^verbatim>\<open>errors\<close> (\<open>Inl\<close>, \<^verbatim>\<open>is_valid()\<close> false) or the user held in
  \<^verbatim>\<open>serializer.object['user']\<close> (\<open>Inr\<close>). The view returns a response and the
  state it leaves (\<open>Inr\<close>), or an exception of \<^verbatim>\<open>self.login()\<close> leaves it unhandled
  (\<open>Inl\<close>).
\<close>

definition Login_post ::
  "('d \<Rightarrow> 'e + 'u) \<Rightarrow> settings \<Rightarrow> exn option \<Rightarrow> key \<Rightarrow> 'd \<Rightarrow> 'u world
     \<Rightarrow> exn + ('e response \<times> 'u world)" where
  "Login_post serializer cfg failure k DATA w =
     (case serializer DATA of
        Inl errors \<Rightarrow> Inr (get_error_response errors, w)
      | Inr u \<Rightarrow>
          (case Login_login cfg failure k u w of
             Inl e \<Rightarrow> Inl e
           | Inr (token, w') \<Rightarrow> Inr (get_response token, w')))"

subsection \<open>Logout\<close>

text \<open>
  \<^verbatim>\<open>
  def post(self, request):
      try:
          request.user.auth_token.delete()
      except:
          pass
      logout(request)
      return Response({"success": "Successfully logged out."}, status=status.HTTP_200_OK)
  \<close>
  \<open>try_delete\<close> is the body of the \<^verbatim>\<open>try\<close>; the bare \<^verbatim>\<open>except: pass\<close> turns
  every exception of it into the unchanged table.
\<close>

definition try_delete :: "exn option \<Rightarrow> 'u \<Rightarrow> 'u token list \<Rightarrow> exn + 'u token list" where
  "try_delete failure u rows =
     (case auth_token u rows of
        Inl e \<Rightarrow> Inl e
      | Inr t \<Rightarrow> delete failure t rows)"

definition Logout_post :: "exn option \<Rightarrow> 'u \<Rightarrow> 'u world \<Rightarrow> 'e response \<times> 'u world" where
  "Logout_post failure u w =
     (let w1 = (case try_delete failure u (tokens w) of
                  Inl e \<Rightarrow> w
                | Inr rows \<Rightarrow> w\<lparr>tokens := rows\<rparr>);
          w2 = logout w1
      in (Response (SuccessData ''Successfully logged out.'') HTTP_200_OK, w2))"

subsection \<open>Password reset\<close>

text \<open>
  \<^verbatim>\<open>
  def post(self, request, *args, **kwargs):
      serializer = self.get_serializer(data=request.DATA)
      if not serializer.is_valid():
          return Response(serializer.errors, status=status.HTTP_400_BAD_REQUEST)
      serializer.save()
      return Response({"success": "Password reset e-mail has been sent."},
                      status=status.HTTP_200_OK)
  \<close>
  The serializer is a parameter: \<open>errors_of\<close> gives its errors on the data (\<open>None\<close>
  when \<^verbatim>\<open>is_valid()\<close> holds) and \<open>save\<close> its effect. Both may read the accounts
  and the mail queue, the state \<open>'m\<close> of the password-reset collaborator.
\<close>

definition PasswordReset_post ::
  "('m \<Rightarrow> 'd \<Rightarrow> 'e option) \<Rightarrow> ('d \<Rightarrow> 'm \<Rightarrow> 'm) \<Rightarrow> 'd \<Rightarrow> 'm \<Rightarrow> 'e response \<times> 'm" where
  "PasswordReset_post errors_of save DATA m =
     (case errors_of m DATA of
        Some errors \<Rightarrow> (Response (ErrorData errors) HTTP_400_BAD_REQUEST, m)
      | None \<Rightarrow>
          (Response (SuccessData ''Password reset e-mail has been sent.'') HTTP_200_OK,
           save DATA m))"

section \<open>The login serializer\<close>

text \<open>
  Modelled from the spec: the Credential Verifier's \<^verbatim>\<open>verify(username, password) ->
  UserIdentity | failure\<close> and \<^verbatim>\<open>is_active(identity)\<close>, and the serializer
  \<^verbatim>\<open>LoginSerializer\<close> of \<^verbatim>\<open>rest_auth/serializers.py\<close> built on them (not in the
  sources). Field errors are collected for every field, never only the first; a wrong
  username or password and an inactive account both give \<^verbatim>\<open>InvalidCredentials\<close>.
  How a password is stored and compared is the verifier's business: an account holds
  what \<open>verify\<close> compares against. The identity of an account is its username; the
  accounts, and with them the active flags, are the user store as it is when it is asked.
\<close>

record account =
  username :: string
  password :: string
  is_active :: bool

datatype validation_error = Required string | NonField auth_error

definition verify :: "account list \<Rightarrow> string \<Rightarrow> string \<Rightarrow> account option" where
  "verify accounts n p = find (\<lambda>a. username a = n \<and> password a = p) accounts"

text \<open>A field of the request data: required, and not blank.\<close>

definition field :: "(string \<times> string) list \<Rightarrow> string \<Rightarrow> validation_error + string" where
  "field DATA name =
     (case map_of DATA name of
        None \<Rightarrow> Inl (Required name)
      | Some v \<Rightarrow> if v = [] then Inl (Required name) else Inr v)"

definition field_errors :: "validation_error + string \<Rightarrow> validation_error list" where
  "field_errors r = (case r of Inl e \<Rightarrow> [e] | Inr v \<Rightarrow> [])"

definition LoginSerializer ::
  "account list \<Rightarrow> (string \<times> string) list \<Rightarrow> validation_error list + string" where
  "LoginSerializer accounts DATA =
     (case (field DATA ''username'', field DATA ''password'') of
        (Inr n, Inr p) \<Rightarrow>
          (case verify accounts n p of
             None \<Rightarrow> Inl [NonField InvalidCredentials]
           | Some a \<Rightarrow>
               if is_active a then Inr (username a) else Inl [NonField InvalidCredentials])
      | (fu, fp) \<Rightarrow> Inl (field_errors fu @ field_errors fp))"

definition is_active_in :: "account list \<Rightarrow> string \<Rightarrow> bool" where
  "is_active_in accounts u =
     (case find (\<lambda>a. username a = u) accounts of
        None \<Rightarrow> False
      | Some a \<Rightarrow> is_active a)"

section \<open>Sequences of requests\<close>

text \<open>
  A request to the login view carries its data, the value the token generator would
  draw for it and the exception the store raises underneath get-or-create, if any; a
  request to the logout view carries the authenticated user and the exception the store
  raises underneath the deletion, if any. A login that raises has written nothing, so
  it leaves the state as it was.
\<close>

datatype ('d, 'u) request = LoginRequest 'd key "exn option" | LogoutRequest 'u "exn option"

definition handle ::
  "('d \<Rightarrow> 'e + 'u) \<Rightarrow> settings \<Rightarrow> ('d, 'u) request \<Rightarrow> 'u world \<Rightarrow> 'u world" where
  "handle serializer cfg r w =
     (case r of
        LoginRequest DATA k failure \<Rightarrow>
          (case Login_post serializer cfg failure k DATA w of
             Inl e \<Rightarrow> w
           | Inr (response, w') \<Rightarrow> w')
      | LogoutRequest u failure \<Rightarrow>
          snd (Logout_post failure u w :: 'e response \<times> 'u world))"

definition run ::
  "('d \<Rightarrow> 'e + 'u) \<Rightarrow> settings \<Rightarrow> ('d, 'u) request list \<Rightarrow> 'u world \<Rightarrow> 'u world" where
  "run serializer cfg rs w = foldl (\<lambda>w r. handle serializer cfg r w) w rs"

fun draw :: "('d, 'u) request \<Rightarrow> key list" where
  "draw (LoginRequest DATA k failure) = [k]"
| "draw (LogoutRequest u failure) = []"

definition draws :: "('d, 'u) request list \<Rightarrow> key list" where
  "draws rs = concat (map draw rs)"

text \<open>A request revokes the token of \<open>u\<close> when it is a logout of \<open>u\<close> whose deletion does not fail.\<close>

fun revokes :: "'u \<Rightarrow> ('d, 'u) request \<Rightarrow> bool" where
  "revokes u (LoginRequest DATA k failure) = False"
| "revokes u (LogoutRequest u' failure) = (u' = u \<and> failure = None)"

section \<open>Example data\<close>

text \<open>The accounts and requests of the specification's scenarios.\<close>

definition alice :: string where
  "alice = ''alice''"

definition bob :: string where
  "bob = ''bob''"

definition accounts :: "account list" where
  "accounts =
     [\<lparr>username = ''alice'', password = ''correct'', is_active = True\<rparr>,
      \<lparr>username = ''bob'', password = ''hunter2'', is_active = True\<rparr>]"

text \<open>The same user store after the account of alice has been deactivated.\<close>

definition accounts_alice_inactive :: "account list" where
  "accounts_alice_inactive =
     [\<lparr>username = ''alice'', password = ''correct'', is_active = False\<rparr>,
      \<lparr>username = ''bob'', password = ''hunter2'', is_active = True\<rparr>]"

definition credentials :: "string \<Rightarrow> string \<Rightarrow> (string \<times> string) list" where
  "credentials n p = [(''username'', n), (''password'', p)]"

definition unset :: settings where
  "unset = \<lparr>REST_SESSION_LOGIN = None\<rparr>"

definition session_login_off :: settings where
  "session_login_off = \<lparr>REST_SESSION_LOGIN = Some False\<rparr>"

text \<open>
  A password-reset serializer for the examples: it accepts every non-empty address and
  queues a mail only when an account has the address. Its state is the list of registered
  addresses and the mail queue.
\<close>

definition example_reset_errors :: "string list \<times> string list \<Rightarrow> string \<Rightarrow> string option" where
  "example_reset_errors m email = (if email = [] then Some ''This field is required.'' else None)"

definition example_reset_save :: "string \<Rightarrow> string list \<times> string list \<Rightarrow> string list \<times> string list" where
  "example_reset_save email m = (if email \<in> set (fst m) then (fst m, snd m @ [email]) else m)"

section \<open>Facts about the token table\<close>

lemma find_user_append_new:
  "find (\<lambda>t. user t = u) rows = None \<Longrightarrow> find (\<lambda>t. user t = u) (rows @ [Token k u]) = Some (Token k u)"
  by (induction rows) auto

lemma find_distinct_map:
  "distinct (map f xs) \<Longrightarrow> x \<in> set xs \<Longrightarrow> find (\<lambda>y. f y = f x) xs = Some x"
  by (induction xs) (auto simp: image_iff)

text \<open>When get-or-create returns, it has either found the row of the user or made one.\<close>

lemma get_or_create_returns:
  assumes "get_or_create failure k u rows = Inr ((t, created), rows')"
  shows "failure = None \<and>
         (find (\<lambda>t. user t = u) rows = Some t \<and> rows' = rows \<and> \<not> created
          \<or> find (\<lambda>t. user t = u) rows = None \<and> k \<notin> key ` set rows
              \<and> t = Token k u \<and> rows' = rows @ [Token k u] \<and> created)"
  using assms by (auto simp: get_or_create_def split: option.splits if_splits)

lemma get_or_create_found:
  "find (\<lambda>t. user t = u) rows = Some t \<Longrightarrow> get_or_create None k u rows = Inr ((t, False), rows)"
  by (simp add: get_or_create_def)

lemma get_or_create_owned:
  assumes "get_or_create failure k u rows = Inr ((t, created), rows')"
  shows "find (\<lambda>t. user t = u) rows' = Some t"
  using get_or_create_returns[OF assms] by (auto simp: find_user_append_new)

lemma get_or_create_member:
  assumes "get_or_create failure k u rows = Inr ((t, created), rows')"
  shows "t \<in> set rows' \<and> user t = u"
  using get_or_create_owned[OF assms] by (auto simp: find_Some_iff)

lemma get_or_create_mono:
  assumes "get_or_create failure k u rows = Inr ((t, created), rows')"
  shows "set rows \<subseteq> set rows'"
  using get_or_create_returns[OF assms] by auto

lemma get_or_create_keys:
  assumes "get_or_create failure k u rows = Inr ((t, created), rows')"
  shows "key ` set rows' \<subseteq> insert k (key ` set rows)"
  using get_or_create_returns[OF assms] by auto

lemma get_or_create_distinct_users:
  assumes "get_or_create failure k u rows = Inr ((t, created), rows')"
    and "distinct (map user rows)"
  shows "distinct (map user rows')"
  using get_or_create_returns[OF assms(1)] assms(2) by (auto simp: find_None_iff)

lemma get_or_create_distinct_keys:
  assumes "get_or_create failure k u rows = Inr ((t, created), rows')"
    and "distinct (map key rows)"
  shows "distinct (map key rows')"
  using get_or_create_returns[OF assms(1)] assms(2) by auto

lemma try_delete_cases:
  "try_delete failure u rows =
     (case find (\<lambda>t. user t = u) rows of
        None \<Rightarrow> Inl DoesNotExist
      | Some t \<Rightarrow> (case failure of Some e \<Rightarrow> Inl e | None \<Rightarrow> Inr (removeAll t rows)))"
  by (simp add: try_delete_def auth_token_def delete_def split: option.splits)

text \<open>The login view on valid input, in one equation.\<close>

lemma Login_post_valid:
  assumes "serializer DATA = Inr u"
  shows "Login_post serializer cfg failure k DATA w =
     (case get_or_create failure k u (tokens w) of
        Inl e \<Rightarrow> Inl e
      | Inr ((t, created), rows) \<Rightarrow>
          Inr (Response (TokenData (key t)) 200,
               \<lparr>tokens = rows,
                side_channel = side_channel w
                  @ (if REST_SESSION_LOGIN cfg = Some False then [] else [Establish u])\<rparr>))"
  using assms
  by (cases "REST_SESSION_LOGIN cfg")
     (auto simp: Login_post_def Login_login_def login_def getattr_def get_response_def
        HTTP_200_OK_def split: sum.splits prod.splits)

lemma Login_post_invalid:
  "serializer DATA = Inl errors
     \<Longrightarrow> Login_post serializer cfg failure k DATA w = Inr (Response (ErrorData errors) 400, w)"
  by (simp add: Login_post_def get_error_response_def HTTP_400_BAD_REQUEST_def)

lemma tokens_handle_login:
  "tokens (handle serializer cfg (LoginRequest DATA k failure) w) =
     (case serializer DATA of
        Inl errors \<Rightarrow> tokens w
      | Inr u \<Rightarrow>
          (case get_or_create failure k u (tokens w) of
             Inl e \<Rightarrow> tokens w
           | Inr (found, rows) \<Rightarrow> rows))"
  by (auto simp: handle_def Login_post_valid Login_post_invalid split: sum.splits prod.splits)

lemma tokens_handle_logout:
  "tokens (handle serializer cfg (LogoutRequest u failure) w) =
     (case find (\<lambda>t. user t = u) (tokens w) of
        None \<Rightarrow> tokens w
      | Some t \<Rightarrow> (case failure of Some e \<Rightarrow> tokens w | None \<Rightarrow> removeAll t (tokens w)))"
  by (auto simp: handle_def Logout_post_def logout_def try_delete_cases Let_def split: option.splits)

lemma distinct_map_removeAll:
  "distinct (map f xs) \<Longrightarrow> distinct (map f (removeAll x xs))"
  by (induction xs) auto

lemma handle_distinct_users:
  "distinct (map user (tokens w)) \<Longrightarrow> distinct (map user (tokens (handle serializer cfg r w)))"
  by (cases r)
     (auto simp: tokens_handle_login tokens_handle_logout distinct_map_removeAll
        split: sum.splits option.splits dest: get_or_create_distinct_users)

lemma handle_distinct_keys:
  "distinct (map key (tokens w)) \<Longrightarrow> distinct (map key (tokens (handle serializer cfg r w)))"
  by (cases r)
     (auto simp: tokens_handle_login tokens_handle_logout distinct_map_removeAll
        split: sum.splits option.splits dest: get_or_create_distinct_keys)

lemma handle_keys:
  "key ` set (tokens (handle serializer cfg r w)) \<subseteq> key ` set (tokens w) \<union> set (draw r)"
proof (cases r)
  case (LoginRequest DATA k failure)
  then show ?thesis
    by (auto simp: tokens_handle_login split: sum.splits dest!: get_or_create_keys)
next
  case (LogoutRequest u failure)
  then show ?thesis
    by (auto simp: tokens_handle_logout split: option.splits)
qed

lemma run_Nil: "run serializer cfg [] w = w"
  by (simp add: run_def)

lemma run_Cons: "run serializer cfg (r # rs) w = run serializer cfg rs (handle serializer cfg r w)"
  by (simp add: run_def)

lemma run_append: "run serializer cfg (rs @ rs') w = run serializer cfg rs' (run serializer cfg rs w)"
  by (simp add: run_def)

lemma draws_Nil: "draws [] = []"
  by (simp add: draws_def)

lemma draws_Cons: "draws (r # rs) = draw r @ draws rs"
  by (simp add: draws_def)

lemma draws_append: "draws (rs @ rs') = draws rs @ draws rs'"
  by (simp add: draws_def)

lemma run_distinct_users:
  "distinct (map user (tokens w)) \<Longrightarrow> distinct (map user (tokens (run serializer cfg rs w)))"
  by (induction rs arbitrary: w) (auto simp: run_Nil run_Cons handle_distinct_users)

lemma run_distinct_keys:
  "distinct (map key (tokens w)) \<Longrightarrow> distinct (map key (tokens (run serializer cfg rs w)))"
  by (induction rs arbitrary: w) (auto simp: run_Nil run_Cons handle_distinct_keys)

lemma run_keys:
  "key ` set (tokens (run serializer cfg rs w)) \<subseteq> key ` set (tokens w) \<union> set (draws rs)"
proof (induction rs arbitrary: w)
  case Nil
  then show ?case by (simp add: run_Nil)
next
  case (Cons r rs)
  have "key ` set (tokens (run serializer cfg rs (handle serializer cfg r w)))
          \<subseteq> key ` set (tokens (handle serializer cfg r w)) \<union> set (draws rs)"
    by (rule Cons.IH)
  also have "\<dots> \<subseteq> (key ` set (tokens w) \<union> set (draw r)) \<union> set (draws rs)"
    using handle_keys[of serializer cfg r w] by blast
  finally show ?case by (simp add: run_Cons draws_Cons Un_assoc)
qed

lemma tokens_empty_world: "tokens empty_world = []"
  by (simp add: empty_world_def)

lemma reachable_distinct_users:
  "distinct (map user (tokens (run serializer cfg rs empty_world)))"
  by (rule run_distinct_users) (simp add: tokens_empty_world)

lemma reachable_distinct_keys:
  "distinct (map key (tokens (run serializer cfg rs empty_world)))"
  by (rule run_distinct_keys) (simp add: tokens_empty_world)

lemma count_distinct_map_le:
  "distinct (map f xs) \<Longrightarrow> length (filter (\<lambda>t. f t = a) xs) \<le> 1"
  by (induction xs) (auto simp: image_iff filter_empty_conv)

lemma count_distinct_map_eq:
  "distinct (map f xs) \<Longrightarrow> x \<in> set xs \<Longrightarrow> length (filter (\<lambda>t. f t = f x) xs) = 1"
  by (induction xs) (auto simp: image_iff filter_empty_conv)

lemma handle_keeps_token:
  assumes "t \<in> set (tokens w)" and "\<not> revokes (user t) r"
  shows "t \<in> set (tokens (handle serializer cfg r w))"
proof (cases r)
  case (LoginRequest DATA k failure)
  then show ?thesis
    using assms(1)
    by (auto simp: tokens_handle_login split: sum.splits dest: get_or_create_mono)
next
  case (LogoutRequest u failure)
  with assms(2) have "u \<noteq> user t \<or> failure \<noteq> None" by auto
  then show ?thesis
    using assms(1) LogoutRequest
    by (auto simp: tokens_handle_logout find_Some_iff split: option.splits)
qed

lemma run_keeps_token:
  "t \<in> set (tokens w) \<Longrightarrow> \<forall>r\<in>set rs. \<not> revokes (user t) r
     \<Longrightarrow> t \<in> set (tokens (run serializer cfg rs w))"
  by (induction rs arbitrary: w) (auto simp: run_Nil run_Cons handle_keeps_token)

lemma resolve_live:
  "distinct (map key rows) \<Longrightarrow> t \<in> set rows
     \<Longrightarrow> resolve active (key t) rows = (if active (user t) then Inr (user t) else Inl InvalidToken)"
  by (simp add: resolve_def find_distinct_map)

lemma resolve_absent:
  "v \<notin> key ` set rows \<Longrightarrow> resolve active v rows = Inl InvalidToken"
proof -
  assume "v \<notin> key ` set rows"
  then have "find (\<lambda>t. key t = v) rows = None"
    by (auto simp: find_None_iff)
  then show ?thesis by (simp add: resolve_def)
qed

lemma removeAll_drops_value:
  "distinct (map f xs) \<Longrightarrow> x \<in> set xs \<Longrightarrow> f x \<notin> f ` set (removeAll x xs)"
  by (auto simp: distinct_map dest: inj_onD)

lemma successful_logout_drops_value:
  assumes "distinct (map user (tokens w))" and "distinct (map key (tokens w))"
    and "t \<in> set (tokens w)"
  shows "key t \<notin> key ` set (tokens (handle serializer cfg (LogoutRequest (user t) None) w))"
proof -
  have "find (\<lambda>x. user x = user t) (tokens w) = Some t"
    using assms(1,3) by (rule find_distinct_map)
  then have "tokens (handle serializer cfg (LogoutRequest (user t) None) w) = removeAll t (tokens w)"
    by (simp add: tokens_handle_logout)
  then show ?thesis
    using removeAll_drops_value[OF assms(2,3)] by simp
qed

section \<open>Evaluation of the examples\<close>

lemmas eval_simps =
  Login_post_def Login_login_def get_or_create_def login_def logout_def Logout_post_def
  try_delete_def auth_token_def delete_def get_response_def get_error_response_def
  getattr_def HTTP_200_OK_def HTTP_400_BAD_REQUEST_def LoginSerializer_def field_def
  field_errors_def verify_def is_active_in_def alice_def bob_def accounts_def
  accounts_alice_inactive_def credentials_def unset_def session_login_off_def
  empty_world_def resolve_def run_def handle_def draws_def Let_def

lemma alice_valid: "LoginSerializer accounts (credentials ''alice'' ''correct'') = Inr alice"
  by (simp add: eval_simps)

lemma bob_valid: "LoginSerializer accounts (credentials ''bob'' ''hunter2'') = Inr bob"
  by (simp add: eval_simps)

lemma alice_not_bob: "alice \<noteq> bob" "bob \<noteq> alice"
  by (simp_all add: alice_def bob_def)

section \<open>The claims\<close>

subsection \<open>C1: get-or-create idempotence of login\<close>

text \<open>
  C1. For every identity with valid credentials, two calls of the login view in a row
  answer with the same token value. Whenever the first call returns, the value it
  answers is that of the row the identity owns in the table after the call (the row the
  call created or found); and the second call, whatever the generator draws for it,
  finds that row through get-or-create: it returns with the same value and leaves the
  table as the first call left it. It holds in every state of the table.
\<close>

theorem authenticate_twice_same_token:
  assumes valid: "serializer DATA = Inr u"
    and first: "Login_post serializer cfg failure k1 DATA w = Inr (r1, w1)"
  shows "\<exists>t. auth_token u (tokens w1) = Inr t
           \<and> r1 = Response (TokenData (key t)) 200
           \<and> (\<exists>w2. Login_post serializer cfg None k2 DATA w1
                       = Inr (Response (TokenData (key t)) 200, w2)
                    \<and> tokens w2 = tokens w1)"
proof -
  from first obtain t created rows
    where goc: "get_or_create failure k1 u (tokens w) = Inr ((t, created), rows)"
      and r1: "r1 = Response (TokenData (key t)) 200"
      and w1: "tokens w1 = rows"
    unfolding Login_post_valid[where serializer = serializer and DATA = DATA, OF valid] by (auto split: sum.splits prod.splits)
  have owned: "find (\<lambda>t. user t = u) (tokens w1) = Some t"
    unfolding w1 using goc by (rule get_or_create_owned)
  then have "auth_token u (tokens w1) = Inr t"
    by (simp add: auth_token_def)
  moreover have "get_or_create None k2 u (tokens w1) = Inr ((t, False), tokens w1)"
    using owned by (rule get_or_create_found)
  then have "\<exists>w2. Login_post serializer cfg None k2 DATA w1
                     = Inr (Response (TokenData (key t)) 200, w2)
                  \<and> tokens w2 = tokens w1"
    unfolding Login_post_valid[where serializer = serializer and DATA = DATA, OF valid] by simp
  ultimately show ?thesis
    using r1 by blast
qed

theorem authenticate_twice_same_token_witness:
  "LoginSerializer accounts (credentials ''alice'' ''correct'') = Inr alice
   \<and> Login_post (LoginSerializer accounts) unset None ''abc123''
        (credentials ''alice'' ''correct'') empty_world
       = Inr (Response (TokenData ''abc123'') 200,
              \<lparr>tokens = [Token ''abc123'' alice], side_channel = [Establish alice]\<rparr>)
   \<and> (\<exists>t. auth_token alice [Token ''abc123'' alice] = Inr t
          \<and> key t = ''abc123''
          \<and> (\<exists>w2. Login_post (LoginSerializer accounts) unset None ''def456''
                      (credentials ''alice'' ''correct'')
                      \<lparr>tokens = [Token ''abc123'' alice], side_channel = [Establish alice]\<rparr>
                    = Inr (Response (TokenData (key t)) 200, w2)
                  \<and> tokens w2 = [Token ''abc123'' alice]))"
proof -
  have first: "Login_post (LoginSerializer accounts) unset None ''abc123''
        (credentials ''alice'' ''correct'') empty_world
       = Inr (Response (TokenData ''abc123'') 200,
              \<lparr>tokens = [Token ''abc123'' alice], side_channel = [Establish alice]\<rparr>)"
    by (simp add: eval_simps)
  from authenticate_twice_same_token[where serializer = "LoginSerializer accounts"
      and DATA = "credentials ''alice'' ''correct''" and u = alice and cfg = unset
      and failure = None and ?k1.0 = "''abc123''" and ?k2.0 = "''def456''" and w = empty_world,
      OF alice_valid first]
    alice_valid first
  show ?thesis by auto
qed

subsection \<open>C2: one token per identity\<close>

text \<open>
  C2. After every successful call of the login view for an identity \<open>I\<close>, exactly one row
  of the token table is owned by \<open>I\<close>, whether it was created by the call or was there
  before; and in every state reached from the empty table by login and logout requests,
  no identity \<open>J\<close> owns two rows.
\<close>

theorem one_token_per_identity:
  assumes valid: "serializer DATA = Inr I"
    and returns: "Login_post serializer cfg failure k DATA (run serializer cfg rs empty_world)
                    = Inr (r, w')"
  shows "length (filter (\<lambda>t. user t = I) (tokens w')) = 1
       \<and> length (filter (\<lambda>t. user t = J) (tokens (run serializer cfg rs empty_world))) \<le> 1"
proof -
  let ?w = "run serializer cfg rs empty_world"
  have before: "distinct (map user (tokens ?w))"
    by (rule reachable_distinct_users)
  from returns obtain t created
    where goc: "get_or_create failure k I (tokens ?w) = Inr ((t, created), tokens w')"
    unfolding Login_post_valid[where serializer = serializer and DATA = DATA, OF valid] by (auto split: sum.splits prod.splits)
  have "distinct (map user (tokens w'))"
    using goc before by (rule get_or_create_distinct_users)
  moreover have t: "t \<in> set (tokens w') \<and> user t = I"
    using goc by (rule get_or_create_member)
  ultimately have "length (filter (\<lambda>x. user x = user t) (tokens w')) = 1"
    by (intro count_distinct_map_eq) simp_all
  then have "length (filter (\<lambda>x. user x = I) (tokens w')) = 1"
    using t by simp
  moreover have "length (filter (\<lambda>t. user t = J) (tokens ?w)) \<le> 1"
    using before by (rule count_distinct_map_le)
  ultimately show ?thesis by simp
qed

theorem one_token_per_identity_witness:
  "LoginSerializer accounts (credentials ''alice'' ''correct'') = Inr alice
   \<and> Login_post (LoginSerializer accounts) unset None ''def456'' (credentials ''alice'' ''correct'')
        (run (LoginSerializer accounts) unset
           [LoginRequest (credentials ''alice'' ''correct'') ''abc123'' None,
            LoginRequest (credentials ''bob'' ''hunter2'') ''b0b'' None]
           empty_world)
       = Inr (Response (TokenData ''abc123'') 200,
              \<lparr>tokens = [Token ''abc123'' alice, Token ''b0b'' bob],
               side_channel = [Establish alice, Establish bob, Establish alice]\<rparr>)
   \<and> length (filter (\<lambda>t. user t = alice) [Token ''abc123'' alice, Token ''b0b'' bob]) = 1
   \<and> length (filter (\<lambda>t. user t = bob)
        (tokens (run (LoginSerializer accounts) unset
           [LoginRequest (credentials ''alice'' ''correct'') ''abc123'' None,
            LoginRequest (credentials ''bob'' ''hunter2'') ''b0b'' None]
           empty_world))) \<le> 1"
proof -
  have returns: "Login_post (LoginSerializer accounts) unset None ''def456''
        (credentials ''alice'' ''correct'')
        (run (LoginSerializer accounts) unset
           [LoginRequest (credentials ''alice'' ''correct'') ''abc123'' None,
            LoginRequest (credentials ''bob'' ''hunter2'') ''b0b'' None]
           empty_world)
       = Inr (Response (TokenData ''abc123'') 200,
              \<lparr>tokens = [Token ''abc123'' alice, Token ''b0b'' bob],
               side_channel = [Establish alice, Establish bob, Establish alice]\<rparr>)"
    by (simp add: eval_simps)
  from one_token_per_identity[where serializer = "LoginSerializer accounts"
      and DATA = "credentials ''alice'' ''correct''" and I = alice and J = bob and cfg = unset
      and failure = None and k = "''def456''"
      and rs = "[LoginRequest (credentials ''alice'' ''correct'') ''abc123'' None,
                 LoginRequest (credentials ''bob'' ''hunter2'') ''b0b'' None]",
      OF alice_valid returns]
    alice_valid returns
  show ?thesis by simp
qed

subsection \<open>C3: a token resolves until it is revoked\<close>

text \<open>
  C3, as amended. Let a login issue the token value \<open>T\<close> to the identity \<open>I\<close>. At every
  point after the issuance up to a logout of \<open>I\<close> whose deletion succeeds (whatever
  requests \<open>mid\<close> are handled in between, logouts of \<open>I\<close> whose deletion fails among
  them), \<open>resolve T\<close> returns \<open>I\<close> if \<open>I\<close> is active when the lookup is made, and
  \<^verbatim>\<open>InvalidToken\<close> if it is not. At every point after that logout, \<open>resolve T\<close>
  returns \<^verbatim>\<open>InvalidToken\<close>, whatever requests \<open>post\<close> follow it, provided the generator
  does not draw the value \<open>T\<close> again for one of them.

  The claim as stated has \<open>resolve T\<close> return \<open>I\<close> before every call of the logout view
  and \<^verbatim>\<open>InvalidToken\<close> after it. It fails in three ways, each evaluated in the
  counterexample below: the view swallows a failure of the deletion
  (\<^verbatim>\<open>except: pass\<close>) and answers 200 with the row still in the table; an identity
  that has been deactivated no longer resolves although nothing was revoked; and nothing
  keeps the generator from drawing a deleted value again, after which the value resolves
  to its new owner.
\<close>

theorem resolve_until_revoked:
  assumes valid: "serializer DATA = Inr I"
    and issued: "Login_post serializer cfg failure k DATA (run serializer cfg pre empty_world)
                   = Inr (Response (TokenData T) 200, w)"
    and no_revoke: "\<forall>r\<in>set mid. \<not> revokes I r"
    and not_redrawn: "T \<notin> set (draws post)"
  shows "resolve active T (tokens (run serializer cfg mid w))
           = (if active I then Inr I else Inl InvalidToken)
       \<and> resolve active' T (tokens (run serializer cfg (mid @ LogoutRequest I None # post) w))
           = Inl InvalidToken"
proof -
  let ?w0 = "run serializer cfg pre empty_world"
  let ?w1 = "run serializer cfg mid w"
  let ?w2 = "handle serializer cfg (LogoutRequest I None) ?w1"
  from issued obtain t created
    where goc: "get_or_create failure k I (tokens ?w0) = Inr ((t, created), tokens w)"
      and key_t: "key t = T"
    unfolding Login_post_valid[where serializer = serializer and DATA = DATA, OF valid]
    by (auto split: sum.splits prod.splits)
  have t: "t \<in> set (tokens w) \<and> user t = I"
    using goc by (rule get_or_create_member)
  have "distinct (map user (tokens w))"
    using goc reachable_distinct_users by (rule get_or_create_distinct_users)
  then have users: "distinct (map user (tokens ?w1))"
    by (rule run_distinct_users)
  have "distinct (map key (tokens w))"
    using goc reachable_distinct_keys by (rule get_or_create_distinct_keys)
  then have keys: "distinct (map key (tokens ?w1))"
    by (rule run_distinct_keys)
  have "\<forall>r\<in>set mid. \<not> revokes (user t) r"
    using no_revoke t by simp
  with t have live: "t \<in> set (tokens ?w1)"
    by (intro run_keeps_token) simp_all
  have "resolve active (key t) (tokens ?w1)
          = (if active (user t) then Inr (user t) else Inl InvalidToken)"
    using keys live by (rule resolve_live)
  then have before: "resolve active T (tokens ?w1) = (if active I then Inr I else Inl InvalidToken)"
    using t key_t by simp
  have "key t \<notin> key ` set (tokens (handle serializer cfg (LogoutRequest (user t) None) ?w1))"
    using users keys live by (rule successful_logout_drops_value)
  then have "T \<notin> key ` set (tokens ?w2)"
    using t key_t by simp
  moreover have "key ` set (tokens (run serializer cfg post ?w2))
      \<subseteq> key ` set (tokens ?w2) \<union> set (draws post)"
    by (rule run_keys)
  ultimately have "T \<notin> key ` set (tokens (run serializer cfg post ?w2))"
    using not_redrawn by blast
  then have "resolve active' T (tokens (run serializer cfg post ?w2)) = Inl InvalidToken"
    by (rule resolve_absent)
  moreover have "run serializer cfg (mid @ LogoutRequest I None # post) w
      = run serializer cfg post ?w2"
    by (simp add: run_append run_Cons)
  ultimately show ?thesis
    using before by simp
qed

theorem resolve_until_revoked_witness:
  "LoginSerializer accounts (credentials ''alice'' ''correct'') = Inr alice
   \<and> Login_post (LoginSerializer accounts) unset None ''abc123'' (credentials ''alice'' ''correct'')
        (run (LoginSerializer accounts) unset
           [LoginRequest (credentials ''bob'' ''hunter2'') ''b0b'' None] empty_world)
       = Inr (Response (TokenData ''abc123'') 200,
              \<lparr>tokens = [Token ''b0b'' bob, Token ''abc123'' alice],
               side_channel = [Establish bob, Establish alice]\<rparr>)
   \<and> \<not> revokes alice
         (LoginRequest (credentials ''alice'' ''correct'') ''def456'' None
            :: ((string \<times> string) list, string) request)
   \<and> \<not> revokes alice
         (LogoutRequest alice (Some DatabaseError) :: ((string \<times> string) list, string) request)
   \<and> \<not> revokes alice (LogoutRequest bob None :: ((string \<times> string) list, string) request)
   \<and> ''abc123'' \<notin> set (draws
         ([LoginRequest (credentials ''alice'' ''correct'') ''ghi789'' None,
           LoginRequest (credentials ''bob'' ''hunter2'') ''b1b'' None]
          :: ((string \<times> string) list, string) request list))
   \<and> resolve (is_active_in accounts) ''abc123''
        (tokens (run (LoginSerializer accounts) unset
           [LoginRequest (credentials ''alice'' ''correct'') ''def456'' None,
            LogoutRequest alice (Some DatabaseError),
            LogoutRequest bob None]
           \<lparr>tokens = [Token ''b0b'' bob, Token ''abc123'' alice],
            side_channel = [Establish bob, Establish alice]\<rparr>))
       = Inr alice
   \<and> resolve (is_active_in accounts_alice_inactive) ''abc123''
        (tokens (run (LoginSerializer accounts) unset
           [LoginRequest (credentials ''alice'' ''correct'') ''def456'' None,
            LogoutRequest alice (Some DatabaseError),
            LogoutRequest bob None]
           \<lparr>tokens = [Token ''b0b'' bob, Token ''abc123'' alice],
            side_channel = [Establish bob, Establish alice]\<rparr>))
       = Inl InvalidToken
   \<and> resolve (is_active_in accounts) ''abc123''
        (tokens (run (LoginSerializer accounts) unset
           [LoginRequest (credentials ''alice'' ''correct'') ''def456'' None,
            LogoutRequest alice (Some DatabaseError),
            LogoutRequest bob None,
            LogoutRequest alice None,
            LoginRequest (credentials ''alice'' ''correct'') ''ghi789'' None,
            LoginRequest (credentials ''bob'' ''hunter2'') ''b1b'' None]
           \<lparr>tokens = [Token ''b0b'' bob, Token ''abc123'' alice],
            side_channel = [Establish bob, Establish alice]\<rparr>))
       = Inl InvalidToken"
proof -
  let ?pre = "[LoginRequest (credentials ''bob'' ''hunter2'') ''b0b'' None]
                :: ((string \<times> string) list, string) request list"
  let ?mid = "[LoginRequest (credentials ''alice'' ''correct'') ''def456'' None,
               LogoutRequest alice (Some DatabaseError), LogoutRequest bob None]
                :: ((string \<times> string) list, string) request list"
  let ?post = "[LoginRequest (credentials ''alice'' ''correct'') ''ghi789'' None,
                LoginRequest (credentials ''bob'' ''hunter2'') ''b1b'' None]
                :: ((string \<times> string) list, string) request list"
  let ?w = "\<lparr>tokens = [Token ''b0b'' bob, Token ''abc123'' alice],
             side_channel = [Establish bob, Establish alice]\<rparr>"
  have issued: "Login_post (LoginSerializer accounts) unset None ''abc123''
        (credentials ''alice'' ''correct'') (run (LoginSerializer accounts) unset ?pre empty_world)
      = Inr (Response (TokenData ''abc123'') 200, ?w)"
    by (simp add: eval_simps)
  have no_revoke: "\<forall>r\<in>set ?mid. \<not> revokes alice r"
    by (simp add: alice_not_bob)
  have not_redrawn: "''abc123'' \<notin> set (draws ?post)"
    by (simp add: draws_def)
  have active: "is_active_in accounts alice" and inactive: "\<not> is_active_in accounts_alice_inactive alice"
    by (simp_all add: eval_simps)
  from resolve_until_revoked[where serializer = "LoginSerializer accounts"
      and DATA = "credentials ''alice'' ''correct''" and I = alice and cfg = unset
      and failure = None and k = "''abc123''" and T = "''abc123''"
      and pre = ?pre and mid = ?mid and post = ?post and w = ?w
      and active = "is_active_in accounts" and active' = "is_active_in accounts",
      OF alice_valid issued no_revoke not_redrawn]
    resolve_until_revoked[where serializer = "LoginSerializer accounts"
      and DATA = "credentials ''alice'' ''correct''" and I = alice and cfg = unset
      and failure = None and k = "''abc123''" and T = "''abc123''"
      and pre = ?pre and mid = ?mid and post = ?post and w = ?w
      and active = "is_active_in accounts_alice_inactive" and active' = "is_active_in accounts",
      OF alice_valid issued no_revoke not_redrawn]
    alice_valid issued no_revoke not_redrawn active inactive
  show ?thesis by simp
qed

text \<open>
  The claim as stated fails: after a logout whose deletion fails the token still resolves
  to alice; with the account of alice deactivated the token no longer resolves, before any
  logout; and after a successful logout a login of bob that draws the same value makes it
  resolve to bob.
\<close>

theorem resolve_until_revoked_counterexample:
  "Login_post (LoginSerializer accounts) unset None ''abc123'' (credentials ''alice'' ''correct'')
     empty_world
     = Inr (Response (TokenData ''abc123'') 200,
            \<lparr>tokens = [Token ''abc123'' alice], side_channel = [Establish alice]\<rparr>)
   \<and> fst (Logout_post (Some DatabaseError) alice
        \<lparr>tokens = [Token ''abc123'' alice], side_channel = [Establish alice]\<rparr>
        :: unit response \<times> string world)
       = Response (SuccessData ''Successfully logged out.'') 200
   \<and> resolve (is_active_in accounts) ''abc123''
        (tokens (run (LoginSerializer accounts) unset
           [LoginRequest (credentials ''alice'' ''correct'') ''abc123'' None,
            LogoutRequest alice (Some DatabaseError)] empty_world))
       = Inr alice
   \<and> resolve (is_active_in accounts_alice_inactive) ''abc123''
        (tokens (run (LoginSerializer accounts) unset
           [LoginRequest (credentials ''alice'' ''correct'') ''abc123'' None] empty_world))
       = Inl InvalidToken
   \<and> resolve (is_active_in accounts) ''abc123''
        (tokens (run (LoginSerializer accounts) unset
           [LoginRequest (credentials ''alice'' ''correct'') ''abc123'' None,
            LogoutRequest alice None,
            LoginRequest (credentials ''bob'' ''hunter2'') ''abc123'' None] empty_world))
       = Inr bob"
  by (simp add: eval_simps)

subsection \<open>C4: logout never reports failure\<close>

text \<open>
  C4. The logout view never reports failure: for every user, every state of the table
  (the user may own no token) and every exception the store may raise underneath the
  deletion, the view answers 200 with the success message; and a second call right
  after the first answers the same.
\<close>

theorem logout_never_reports_failure:
  "fst (Logout_post failure u w :: 'e response \<times> 'u world)
     = Response (SuccessData ''Successfully logged out.'') 200
   \<and> fst (Logout_post failure' u
            (snd (Logout_post failure u w :: 'e response \<times> 'u world))
          :: 'e response \<times> 'u world)
       = Response (SuccessData ''Successfully logged out.'') 200"
  by (simp add: Logout_post_def HTTP_200_OK_def Let_def)

theorem logout_never_reports_failure_witness:
  "try_delete None alice (tokens (empty_world :: string world)) = Inl DoesNotExist
   \<and> fst (Logout_post None alice empty_world :: unit response \<times> string world)
       = Response (SuccessData ''Successfully logged out.'') 200
   \<and> try_delete (Some DatabaseError) alice [Token ''abc123'' alice] = Inl DatabaseError
   \<and> fst (Logout_post (Some DatabaseError) alice \<lparr>tokens = [Token ''abc123'' alice], side_channel = []\<rparr>
          :: unit response \<times> string world)
       = Response (SuccessData ''Successfully logged out.'') 200
   \<and> fst (Logout_post None alice (snd (Logout_post None alice
            \<lparr>tokens = [Token ''abc123'' alice], side_channel = []\<rparr> :: unit response \<times> string world))
          :: unit response \<times> string world)
       = Response (SuccessData ''Successfully logged out.'') 200"
proof -
  have a: "try_delete None alice (tokens (empty_world :: string world)) = Inl DoesNotExist"
    by (simp add: eval_simps)
  have b: "try_delete (Some DatabaseError) alice [Token ''abc123'' alice] = Inl DatabaseError"
    by (simp add: eval_simps)
  from a b
    logout_never_reports_failure[where 'e = unit, of None alice "empty_world :: string world" None]
    logout_never_reports_failure[where 'e = unit, of "Some DatabaseError" alice
      "\<lparr>tokens = [Token ''abc123'' alice], side_channel = []\<rparr>" None]
    logout_never_reports_failure[where 'e = unit, of None alice
      "\<lparr>tokens = [Token ''abc123'' alice], side_channel = []\<rparr>" None]
  show ?thesis by simp
qed

subsection \<open>C5: a failed login changes nothing\<close>

text \<open>
  C5. Whenever the serializer rejects the input of the login view (the credential check
  fails), the view answers 400 with exactly the errors of the serializer and leaves
  the whole state, the token table in it, as it was; the store is not called, so this
  holds whatever the store would do. For the credential verifier of the specification a
  wrong password gives \<^verbatim>\<open>InvalidCredentials\<close>, as the witness evaluates.
\<close>

theorem login_invalid_credentials_unchanged:
  assumes "serializer DATA = Inl errors"
  shows "Login_post serializer cfg failure k DATA w = Inr (Response (ErrorData errors) 400, w)"
  using assms by (simp add: Login_post_def get_error_response_def HTTP_400_BAD_REQUEST_def)

theorem login_invalid_credentials_unchanged_witness:
  "LoginSerializer accounts (credentials ''alice'' ''wrong'') = Inl [NonField InvalidCredentials]
   \<and> Login_post (LoginSerializer accounts) unset None ''abc123'' (credentials ''alice'' ''wrong'')
        empty_world
       = Inr (Response (ErrorData [NonField InvalidCredentials]) 400, empty_world)
   \<and> Login_post (LoginSerializer accounts) unset (Some DatabaseError) ''abc123''
        (credentials ''alice'' ''wrong'') empty_world
       = Inr (Response (ErrorData [NonField InvalidCredentials]) 400, empty_world)"
proof -
  have h: "LoginSerializer accounts (credentials ''alice'' ''wrong'') = Inl [NonField InvalidCredentials]"
    by (simp add: eval_simps)
  from login_invalid_credentials_unchanged[where serializer = "LoginSerializer accounts"
      and DATA = "credentials ''alice'' ''wrong''" and errors = "[NonField InvalidCredentials]"
      and cfg = unset and failure = None and k = "''abc123''" and w = empty_world, OF h]
    login_invalid_credentials_unchanged[where serializer = "LoginSerializer accounts"
      and DATA = "credentials ''alice'' ''wrong''" and errors = "[NonField InvalidCredentials]"
      and cfg = unset and failure = "Some DatabaseError" and k = "''abc123''"
      and w = empty_world, OF h] h
  show ?thesis by simp
qed

subsection \<open>C6: session login follows the flag\<close>

text \<open>
  C6. On every successful login the session side channel is called (once, with the
  user) exactly when \<^verbatim>\<open>REST_SESSION_LOGIN\<close> is not set to false: when it is true and
  when it is unset, the default being true. The token table after the call is the one
  get-or-create returned, whatever the flag.
\<close>

theorem session_login_iff_flag:
  assumes valid: "serializer DATA = Inr u"
    and returns: "Login_post serializer cfg failure k DATA w = Inr (r, w')"
  shows "side_channel w'
           = side_channel w @ (if REST_SESSION_LOGIN cfg = Some False then [] else [Establish u])
       \<and> (\<exists>t created. get_or_create failure k u (tokens w) = Inr ((t, created), tokens w'))"
  using returns unfolding Login_post_valid[where serializer = serializer and DATA = DATA, OF valid]
  by (auto split: sum.splits prod.splits)

theorem session_login_iff_flag_witness:
  "LoginSerializer accounts (credentials ''alice'' ''correct'') = Inr alice
   \<and> Login_post (LoginSerializer accounts) unset None ''abc123''
        (credentials ''alice'' ''correct'') empty_world
       = Inr (Response (TokenData ''abc123'') 200,
              \<lparr>tokens = [Token ''abc123'' alice], side_channel = [Establish alice]\<rparr>)
   \<and> Login_post (LoginSerializer accounts) session_login_off None ''abc123''
        (credentials ''alice'' ''correct'') empty_world
       = Inr (Response (TokenData ''abc123'') 200,
              \<lparr>tokens = [Token ''abc123'' alice], side_channel = []\<rparr>)
   \<and> side_channel \<lparr>tokens = [Token ''abc123'' alice], side_channel = [Establish alice]\<rparr>
       = side_channel (empty_world :: string world) @ [Establish alice]
   \<and> side_channel \<lparr>tokens = [Token ''abc123'' alice], side_channel = ([] :: string session_call list)\<rparr>
       = side_channel (empty_world :: string world) @ []"
proof -
  have on: "Login_post (LoginSerializer accounts) unset None ''abc123''
        (credentials ''alice'' ''correct'') empty_world
       = Inr (Response (TokenData ''abc123'') 200,
              \<lparr>tokens = [Token ''abc123'' alice], side_channel = [Establish alice]\<rparr>)"
    by (simp add: eval_simps)
  have off: "Login_post (LoginSerializer accounts) session_login_off None ''abc123''
        (credentials ''alice'' ''correct'') empty_world
       = Inr (Response (TokenData ''abc123'') 200,
              \<lparr>tokens = [Token ''abc123'' alice], side_channel = []\<rparr>)"
    by (simp add: eval_simps)
  from session_login_iff_flag[where serializer = "LoginSerializer accounts"
      and DATA = "credentials ''alice'' ''correct''" and u = alice and cfg = unset
      and failure = None and k = "''abc123''" and w = empty_world, OF alice_valid on]
    session_login_iff_flag[where serializer = "LoginSerializer accounts"
      and DATA = "credentials ''alice'' ''correct''" and u = alice and cfg = session_login_off
      and failure = None and k = "''abc123''" and w = empty_world, OF alice_valid off]
    alice_valid on off
  show ?thesis by (simp add: unset_def session_login_off_def)
qed

subsection \<open>C7: the outcomes of login\<close>

text \<open>
  C7, as amended. Every call of the login view ends in one of three ways: it answers 400
  with the errors of the serializer, returned whole, when the input does not validate;
  when the input validates and get-or-create returns, it answers 200 with the value of
  the token the user owns in the table after the call; and when the input validates and
  get-or-create raises (the store fails, or the value drawn for a new row is in the table
  already), the exception leaves the view unhandled and no response is built.

  The claim as stated has 200 and 400 as the only outcomes. The view has no handler
  around \<^verbatim>\<open>self.login()\<close>, and the specification has persistence failures
  propagate: the counterexample below evaluates two calls with valid credentials that end
  in an exception.
\<close>

theorem login_post_outcomes:
  "(case serializer DATA of
      Inl errors \<Rightarrow>
        Login_post serializer cfg failure k DATA w = Inr (Response (ErrorData errors) 400, w)
    | Inr u \<Rightarrow>
        (case get_or_create failure k u (tokens w) of
           Inl e \<Rightarrow> Login_post serializer cfg failure k DATA w = Inl e
         | Inr ((t, created), rows) \<Rightarrow>
             (\<exists>w'. Login_post serializer cfg failure k DATA w
                      = Inr (Response (TokenData (key t)) 200, w')
                  \<and> auth_token u (tokens w') = Inr t)))"
proof (cases "serializer DATA")
  case (Inl errors)
  then show ?thesis
    by (simp add: Login_post_invalid)
next
  case (Inr u)
  show ?thesis
  proof (cases "get_or_create failure k u (tokens w)")
    case (Inl e)
    with Inr show ?thesis
      by (simp add: Login_post_valid)
  next
    case (Inr found)
    obtain t created rows where found: "found = ((t, created), rows)"
      by (metis prod.exhaust)
    have "find (\<lambda>t. user t = u) rows = Some t"
      using Inr unfolding found by (rule get_or_create_owned)
    then have "auth_token u rows = Inr t"
      by (simp add: auth_token_def)
    with \<open>serializer DATA = Inr u\<close> Inr found show ?thesis
      by (simp add: Login_post_valid)
  qed
qed

theorem login_post_outcomes_witness:
  "Login_post (LoginSerializer accounts) unset None ''abc123'' (credentials ''alice'' ''correct'')
     empty_world
     = Inr (Response (TokenData ''abc123'') 200,
            \<lparr>tokens = [Token ''abc123'' alice], side_channel = [Establish alice]\<rparr>)
   \<and> Login_post (LoginSerializer accounts) unset None ''abc123'' [(''username'', ''alice'')]
        empty_world
       = Inr (Response (ErrorData [Required ''password'']) 400, empty_world)
   \<and> Login_post (LoginSerializer accounts) unset None ''abc123'' [] empty_world
       = Inr (Response (ErrorData [Required ''username'', Required ''password'']) 400, empty_world)
   \<and> Login_post (LoginSerializer accounts) unset (Some DatabaseError) ''abc123''
        (credentials ''alice'' ''correct'') empty_world
       = Inl DatabaseError
   \<and> Login_post (LoginSerializer accounts) unset None ''abc123'' (credentials ''bob'' ''hunter2'')
        \<lparr>tokens = [Token ''abc123'' alice], side_channel = [Establish alice]\<rparr>
       = Inl IntegrityError"
proof -
  have a: "Login_post (LoginSerializer accounts) unset None ''abc123''
      (credentials ''alice'' ''correct'') empty_world
     = Inr (Response (TokenData ''abc123'') 200,
            \<lparr>tokens = [Token ''abc123'' alice], side_channel = [Establish alice]\<rparr>)"
    by (simp add: eval_simps)
  have b: "LoginSerializer accounts [(''username'', ''alice'')] = Inl [Required ''password'']"
    by (simp add: eval_simps)
  have c: "LoginSerializer accounts [] = Inl [Required ''username'', Required ''password'']"
    by (simp add: eval_simps)
  have d: "get_or_create (Some DatabaseError) ''abc123'' alice (tokens (empty_world :: string world))
      = Inl DatabaseError"
    by (simp add: get_or_create_def)
  have e: "get_or_create None ''abc123'' bob [Token ''abc123'' alice] = Inl IntegrityError"
    by (simp add: get_or_create_def alice_def bob_def)
  from login_post_outcomes[where serializer = "LoginSerializer accounts"
      and DATA = "[(''username'', ''alice'')]" and cfg = unset and failure = None
      and k = "''abc123''" and w = empty_world]
    login_post_outcomes[where serializer = "LoginSerializer accounts"
      and DATA = "[]" and cfg = unset and failure = None and k = "''abc123''"
      and w = empty_world]
    login_post_outcomes[where serializer = "LoginSerializer accounts"
      and DATA = "credentials ''alice'' ''correct''" and cfg = unset
      and failure = "Some DatabaseError" and k = "''abc123''" and w = empty_world]
    login_post_outcomes[where serializer = "LoginSerializer accounts"
      and DATA = "credentials ''bob'' ''hunter2''" and cfg = unset and failure = None
      and k = "''abc123''"
      and w = "\<lparr>tokens = [Token ''abc123'' alice], side_channel = [Establish alice]\<rparr>"]
  show ?thesis
    by (simp add: a b c d e alice_valid bob_valid)
qed

text \<open>
  The claim as stated fails: with valid credentials, a store failure and a drawn value
  that is in the table already both end the call in an exception, neither 200 nor 400.
\<close>

theorem login_post_third_outcome_counterexample:
  "LoginSerializer accounts (credentials ''alice'' ''correct'') = Inr alice
   \<and> Login_post (LoginSerializer accounts) unset (Some DatabaseError) ''abc123''
        (credentials ''alice'' ''correct'') empty_world
       = Inl DatabaseError
   \<and> LoginSerializer accounts (credentials ''bob'' ''hunter2'') = Inr bob
   \<and> Login_post (LoginSerializer accounts) unset None ''abc123'' (credentials ''bob'' ''hunter2'')
        \<lparr>tokens = [Token ''abc123'' alice], side_channel = [Establish alice]\<rparr>
       = Inl IntegrityError"
  by (simp add: eval_simps)

subsection \<open>C8: token values are unique; reuse rests on the generator\<close>

text \<open>
  C8, as amended. In every state reached from the empty table, two rows of distinct owners
  never hold the same value: the table refuses a row whose value is in it. A value that
  was in the table and has left it is not in the table again as long as the generator
  does not draw it again.

  The claim as stated has a deleted value never reused. The views and the table keep no
  record of deleted values, so nothing but the generator stands against a reuse: in the
  counterexample below the value of a deleted token is drawn again and given to another
  identity.
\<close>

theorem token_values_unique:
  "(\<forall>t\<in>set (tokens (run serializer cfg rs1 empty_world)).
      \<forall>t'\<in>set (tokens (run serializer cfg rs1 empty_world)).
        user t \<noteq> user t' \<longrightarrow> key t \<noteq> key t')
   \<and> (v \<in> key ` set (tokens (run serializer cfg rs1 empty_world))
        \<and> v \<notin> key ` set (tokens (run serializer cfg (rs1 @ rs2) empty_world))
        \<and> v \<notin> set (draws rs3)
      \<longrightarrow> v \<notin> key ` set (tokens (run serializer cfg (rs1 @ rs2 @ rs3) empty_world)))"
proof (intro conjI ballI impI)
  fix t t'
  assume t: "t \<in> set (tokens (run serializer cfg rs1 empty_world))"
    and t': "t' \<in> set (tokens (run serializer cfg rs1 empty_world))"
    and other: "user t \<noteq> user t'"
  have "distinct (map key (tokens (run serializer cfg rs1 empty_world)))"
    by (rule reachable_distinct_keys)
  then have "inj_on key (set (tokens (run serializer cfg rs1 empty_world)))"
    by (simp add: distinct_map)
  with t t' other show "key t \<noteq> key t'"
    by (auto dest: inj_onD)
next
  assume v: "v \<in> key ` set (tokens (run serializer cfg rs1 empty_world))
    \<and> v \<notin> key ` set (tokens (run serializer cfg (rs1 @ rs2) empty_world))
    \<and> v \<notin> set (draws rs3)"
  have "key ` set (tokens (run serializer cfg (rs1 @ rs2 @ rs3) empty_world))
      \<subseteq> key ` set (tokens (run serializer cfg (rs1 @ rs2) empty_world)) \<union> set (draws rs3)"
    using run_keys[of serializer cfg rs3 "run serializer cfg (rs1 @ rs2) empty_world"]
    by (simp add: run_append)
  then show "v \<notin> key ` set (tokens (run serializer cfg (rs1 @ rs2 @ rs3) empty_world))"
    using v by blast
qed

theorem token_values_unique_witness:
  "tokens (run (LoginSerializer accounts) unset
     [LoginRequest (credentials ''alice'' ''correct'') ''abc123'' None,
      LoginRequest (credentials ''bob'' ''hunter2'') ''abc123'' None,
      LoginRequest (credentials ''bob'' ''hunter2'') ''b0b'' None] empty_world)
     = [Token ''abc123'' alice, Token ''b0b'' bob]
   \<and> key (Token ''abc123'' alice) \<noteq> key (Token ''b0b'' bob)
   \<and> tokens (run (LoginSerializer accounts) unset
        [LoginRequest (credentials ''alice'' ''correct'') ''abc123'' None,
         LoginRequest (credentials ''bob'' ''hunter2'') ''abc123'' None,
         LoginRequest (credentials ''bob'' ''hunter2'') ''b0b'' None,
         LogoutRequest alice None] empty_world)
       = [Token ''b0b'' bob]
   \<and> ''abc123'' \<notin> set (draws
        ([LoginRequest (credentials ''alice'' ''correct'') ''def456'' None]
         :: ((string \<times> string) list, string) request list))
   \<and> ''abc123'' \<notin> key ` set (tokens (run (LoginSerializer accounts) unset
        [LoginRequest (credentials ''alice'' ''correct'') ''abc123'' None,
         LoginRequest (credentials ''bob'' ''hunter2'') ''abc123'' None,
         LoginRequest (credentials ''bob'' ''hunter2'') ''b0b'' None,
         LogoutRequest alice None,
         LoginRequest (credentials ''alice'' ''correct'') ''def456'' None] empty_world))"
proof -
  let ?rs1 = "[LoginRequest (credentials ''alice'' ''correct'') ''abc123'' None,
               LoginRequest (credentials ''bob'' ''hunter2'') ''abc123'' None,
               LoginRequest (credentials ''bob'' ''hunter2'') ''b0b'' None]
                :: ((string \<times> string) list, string) request list"
  let ?rs2 = "[LogoutRequest alice None] :: ((string \<times> string) list, string) request list"
  let ?rs3 = "[LoginRequest (credentials ''alice'' ''correct'') ''def456'' None]
                :: ((string \<times> string) list, string) request list"
  have one: "tokens (run (LoginSerializer accounts) unset ?rs1 empty_world)
      = [Token ''abc123'' alice, Token ''b0b'' bob]"
    by (simp add: eval_simps)
  have two: "tokens (run (LoginSerializer accounts) unset
        [LoginRequest (credentials ''alice'' ''correct'') ''abc123'' None,
         LoginRequest (credentials ''bob'' ''hunter2'') ''abc123'' None,
         LoginRequest (credentials ''bob'' ''hunter2'') ''b0b'' None,
         LogoutRequest alice None] empty_world)
      = [Token ''b0b'' bob]"
    by (simp add: eval_simps)
  have three: "''abc123'' \<notin> set (draws ?rs3)"
    by (simp add: draws_def)
  from token_values_unique[where ?rs1.0 = ?rs1 and ?rs2.0 = ?rs2 and ?rs3.0 = ?rs3
      and serializer = "LoginSerializer accounts" and cfg = unset and v = "''abc123''"]
  have "key (Token ''abc123'' alice) \<noteq> key (Token ''b0b'' bob)
      \<and> ''abc123'' \<notin> key ` set (tokens (run (LoginSerializer accounts) unset
          (?rs1 @ ?rs2 @ ?rs3) empty_world))"
    by (simp add: one two three alice_not_bob)
  with one two three show ?thesis by simp
qed

text \<open>
  The claim as stated fails: the value of alice's token is in the table, leaves it with
  her logout, and is in the table again, owned by bob, once the generator has drawn it
  again.
\<close>

theorem token_value_reused_counterexample:
  "tokens (run (LoginSerializer accounts) unset
     [LoginRequest (credentials ''alice'' ''correct'') ''abc123'' None] empty_world)
     = [Token ''abc123'' alice]
   \<and> tokens (run (LoginSerializer accounts) unset
        [LoginRequest (credentials ''alice'' ''correct'') ''abc123'' None,
         LogoutRequest alice None] empty_world)
       = []
   \<and> tokens (run (LoginSerializer accounts) unset
        [LoginRequest (credentials ''alice'' ''correct'') ''abc123'' None,
         LogoutRequest alice None,
         LoginRequest (credentials ''bob'' ''hunter2'') ''abc123'' None] empty_world)
       = [Token ''abc123'' bob]"
  by (simp add: eval_simps)

subsection \<open>C9: logout always terminates the cookie session\<close>

text \<open>
  C9. Every call of the logout view calls the termination of the cookie session, once,
  whatever the attempt to delete the token did. The state returned with the response
  carries both steps: its table is the one the \<^verbatim>\<open>try\<close> block left (unchanged when
  the block raised, because the user owns no token or because the store failed), its side
  channel has received \<open>Terminate\<close>, and the response is the 200 success response.
\<close>

theorem logout_always_terminates_session:
  "side_channel (snd (Logout_post failure u w :: 'e response \<times> 'u world))
     = side_channel w @ [Terminate]
   \<and> tokens (snd (Logout_post failure u w :: 'e response \<times> 'u world))
       = (case try_delete failure u (tokens w) of Inl e \<Rightarrow> tokens w | Inr rows \<Rightarrow> rows)
   \<and> fst (Logout_post failure u w :: 'e response \<times> 'u world)
       = Response (SuccessData ''Successfully logged out.'') 200"
  by (simp add: Logout_post_def logout_def HTTP_200_OK_def Let_def split: sum.splits)

theorem logout_always_terminates_session_witness:
  "side_channel (snd (Logout_post None alice empty_world :: unit response \<times> string world))
     = [Terminate]
   \<and> tokens (snd (Logout_post None alice empty_world :: unit response \<times> string world)) = []
   \<and> side_channel (snd (Logout_post (Some DatabaseError) alice
        \<lparr>tokens = [Token ''abc123'' alice], side_channel = [Establish alice]\<rparr>
        :: unit response \<times> string world)) = [Establish alice, Terminate]
   \<and> tokens (snd (Logout_post (Some DatabaseError) alice
        \<lparr>tokens = [Token ''abc123'' alice], side_channel = [Establish alice]\<rparr>
        :: unit response \<times> string world)) = [Token ''abc123'' alice]
   \<and> side_channel (snd (Logout_post None alice
        \<lparr>tokens = [Token ''abc123'' alice], side_channel = [Establish alice]\<rparr>
        :: unit response \<times> string world)) = [Establish alice, Terminate]
   \<and> tokens (snd (Logout_post None alice
        \<lparr>tokens = [Token ''abc123'' alice], side_channel = [Establish alice]\<rparr>
        :: unit response \<times> string world)) = []"
proof -
  have a: "try_delete None alice [] = Inl DoesNotExist"
    by (simp add: eval_simps)
  have b: "try_delete (Some DatabaseError) alice [Token ''abc123'' alice] = Inl DatabaseError"
    by (simp add: eval_simps)
  have c: "try_delete None alice [Token ''abc123'' alice] = Inr []"
    by (simp add: eval_simps)
  from logout_always_terminates_session[where 'e = unit, of None alice "empty_world :: string world"]
    logout_always_terminates_session[where 'e = unit, of "Some DatabaseError" alice
      "\<lparr>tokens = [Token ''abc123'' alice], side_channel = [Establish alice]\<rparr>"]
    logout_always_terminates_session[where 'e = unit, of None alice
      "\<lparr>tokens = [Token ''abc123'' alice], side_channel = [Establish alice]\<rparr>"]
  show ?thesis
    by (simp add: a b c empty_world_def)
qed

subsection \<open>C10: password reset does not reveal account existence\<close>

text \<open>
  C10. Two calls of the password-reset view with the same data, in two states of the
  collaborator (the accounts that exist), both passing validation, give the same
  response: 200 with the fixed success message. The response does not depend on whether
  an account has the address.
\<close>

theorem password_reset_hides_account_existence:
  assumes "errors_of m1 DATA = None" and "errors_of m2 DATA = None"
  shows "fst (PasswordReset_post errors_of save DATA m1) = fst (PasswordReset_post errors_of save DATA m2)
       \<and> fst (PasswordReset_post errors_of save DATA m1)
           = Response (SuccessData ''Password reset e-mail has been sent.'') 200"
  using assms by (simp add: PasswordReset_post_def HTTP_200_OK_def)

theorem password_reset_hides_account_existence_witness:
  "example_reset_errors ([''alice@example.com''], []) ''alice@example.com'' = None
   \<and> example_reset_errors ([], []) ''alice@example.com'' = None
   \<and> fst (PasswordReset_post example_reset_errors example_reset_save ''alice@example.com''
            ([''alice@example.com''], []))
       = fst (PasswordReset_post example_reset_errors example_reset_save ''alice@example.com'' ([], []))
   \<and> snd (PasswordReset_post example_reset_errors example_reset_save ''alice@example.com''
            ([''alice@example.com''], []))
       = ([''alice@example.com''], [''alice@example.com''])
   \<and> snd (PasswordReset_post example_reset_errors example_reset_save ''alice@example.com'' ([], []))
       = ([], [])"
proof -
  have a: "example_reset_errors ([''alice@example.com''], []) ''alice@example.com'' = None"
    and b: "example_reset_errors ([], []) ''alice@example.com'' = None"
    by (simp_all add: example_reset_errors_def)
  have c: "snd (PasswordReset_post example_reset_errors example_reset_save ''alice@example.com''
            ([''alice@example.com''], [])) = ([''alice@example.com''], [''alice@example.com''])"
    and d: "snd (PasswordReset_post example_reset_errors example_reset_save ''alice@example.com''
            ([], [])) = ([], [])"
    by (simp_all add: PasswordReset_post_def example_reset_errors_def example_reset_save_def)
  from password_reset_hides_account_existence[where errors_of = example_reset_errors
      and save = example_reset_save and DATA = "''alice@example.com''"
      and ?m1.0 = "([''alice@example.com''], [])" and ?m2.0 = "([], [])", OF a b] a b c d
  show ?thesis by blast
qed

end
